theory Spec2Isabelle
  imports Main "HOL-Library.Word" "HOL-Library.Sublist"
begin

section \<open>JavaScript values used by spotifyDownloader.js\<close>

text \<open>
  A JavaScript string is a sequence of 16-bit code units, and \<open>length\<close> counts code
  units. String literals of the source are ASCII and are written with \<open>js\<close>.
\<close>

type_synonym jschar = "16 word"

type_synonym jsstring = "jschar list"

definition js :: "string \<Rightarrow> jsstring" where
  "js s = map of_char s"

text \<open>
  A string-valued property of a JSON object: \<open>None\<close> stands for a property that is
  missing or null. Only the empty string and the missing value are falsy.
\<close>

definition truthy :: "jsstring option \<Rightarrow> bool" where
  "truthy v = (case v of None \<Rightarrow> False | Some s \<Rightarrow> s \<noteq> [])"

text \<open>The operator \<open>a || b\<close>: the left operand when it is truthy, else the right one.\<close>

definition js_or :: "jsstring option \<Rightarrow> jsstring option \<Rightarrow> jsstring option" where
  "js_or a b = (if truthy a then a else b)"

text \<open>
  What \<open>await fetch(url)\<close> followed by \<open>await response.json()\<close> can give: the fetch
  rejects (network failure), the status is not a success (\<open>!response.ok\<close>), reading the
  body as JSON rejects, or the parsed payload arrives.
\<close>

datatype 'a fetched =
    FetchError jsstring
  | HttpError nat
  | BadJson jsstring
  | Json 'a

section \<open>searchItunesRss (spotifyDownloader.js, lines 50-86)\<close>

text \<open>One element of \<open>data.results\<close> of the iTunes search response.\<close>

record itunes_result =
  feedUrl :: "jsstring option"
  collectionName :: "jsstring option"
  trackName :: "jsstring option"

text \<open>The payload: \<open>results\<close> is \<open>None\<close> when \<open>data.results\<close> is missing.\<close>

record itunes_data =
  results :: "itunes_result list option"

text \<open>The object literal returned at lines 73-76.\<close>

record feed_candidate =
  cand_feedUrl :: "jsstring option"
  cand_collectionName :: "jsstring option"

definition candidate_of :: "itunes_result \<Rightarrow> feed_candidate" where
  "candidate_of r =
     \<lparr>cand_feedUrl = feedUrl r,
      cand_collectionName =
        js_or (collectionName r) (js_or (trackName r) (Some (js ''Unknown'')))\<rparr>"

text \<open>
  The loop of lines 69-79, with the set \<open>seen\<close> passed along: the first result whose
  \<open>feedUrl\<close> is truthy and not in \<open>seen\<close> is returned at once; otherwise the
  \<open>feedUrl\<close> is added to \<open>seen\<close> and the loop goes on. Falling off the end is line 81.
\<close>

fun searchItunesRss_loop ::
  "jsstring option set \<Rightarrow> itunes_result list \<Rightarrow> feed_candidate option" where
  "searchItunesRss_loop seen [] = None"
| "searchItunesRss_loop seen (r # rs) =
     (if truthy (feedUrl r) \<and> feedUrl r \<notin> seen then Some (candidate_of r)
      else searchItunesRss_loop (insert (feedUrl r) seen) rs)"

text \<open>
  The function on the response to its one request. Every failure path (lines 56-59,
  64-66, 81 and the \<open>catch\<close> of lines 82-85) returns \<open>null\<close>, here \<open>None\<close>.
\<close>

definition searchItunesRss :: "itunes_data fetched \<Rightarrow> feed_candidate option" where
  "searchItunesRss response =
     (case response of
        FetchError m \<Rightarrow> None
      | HttpError st \<Rightarrow> None
      | BadJson m \<Rightarrow> None
      | Json d \<Rightarrow>
          (let rs = (case results d of None \<Rightarrow> [] | Some xs \<Rightarrow> xs)
           in if length rs = 0 then None else searchItunesRss_loop {} rs))"

text \<open>The candidates a caller receives, in order: none or one.\<close>

definition candidates :: "itunes_data fetched \<Rightarrow> feed_candidate list" where
  "candidates response = (case searchItunesRss response of None \<Rightarrow> [] | Some c \<Rightarrow> [c])"

subsection \<open>search_itunes_interactive (download-podcast.sh, lines 101-108)\<close>

text \<open>
  The shell script's search keeps every first occurrence: a result whose feed is
  non-empty and not yet in \<open>seen\<close> is appended to \<open>unique\<close> and its feed added to
  \<open>seen\<close>.
\<close>

fun search_itunes_unique ::
  "jsstring option set \<Rightarrow> itunes_result list \<Rightarrow> itunes_result list" where
  "search_itunes_unique seen [] = []"
| "search_itunes_unique seen (r # rs) =
     (if truthy (feedUrl r) \<and> feedUrl r \<notin> seen
      then r # search_itunes_unique (insert (feedUrl r) seen) rs
      else search_itunes_unique seen rs)"


section \<open>Episode filters (spotifyDownloader.js, lines 174-178 and 196-204)\<close>

text \<open>
  The character class \<open>[[\].*^$()+?{|\\]\<close> of lines 177 and 199: the thirteen characters
  \<open>[ ] . * ^ $ ( ) + ? { |\<close> and the backslash (code unit 0x5C).
\<close>

definition backslash :: jschar where
  "backslash = 0x5C"

definition is_special :: "jschar \<Rightarrow> bool" where
  "is_special c = (c \<in> set (js ''[].*^$()+?{|'') \<or> c = backslash)"

text \<open>
  \<open>s.replace(/[[\].*^$()+?{|\\]/g, '\\$&')\<close>: every character of the class is replaced by
  a backslash followed by itself, every other character is kept.
\<close>

definition escape_regex :: "jsstring \<Rightarrow> jsstring" where
  "escape_regex s = concat (map (\<lambda>c. if is_special c then [backslash, c] else [c]) s)"

definition buildExactFilter :: "jsstring \<Rightarrow> jsstring" where
  "buildExactFilter title = escape_regex title"

text \<open>
  The class \<open>\s\<close> of a regular expression without the unicode flag: the white space
  and line terminator code units of ECMAScript.
\<close>

definition is_space :: "jschar \<Rightarrow> bool" where
  "is_space c =
     (c \<in> {0x09, 0x0A, 0x0B, 0x0C, 0x0D, 0x20, 0xA0, 0x1680, 0x2028, 0x2029, 0x202F,
            0x205F, 0x3000, 0xFEFF}
      \<or> (0x2000 \<le> c \<and> c \<le> 0x200A))"

text \<open>The class \<open>[\s\-:,]\<close> of line 197.\<close>

definition is_separator :: "jschar \<Rightarrow> bool" where
  "is_separator c = (is_space c \<or> c \<in> set (js ''-:,''))"

text \<open>
  \<open>title.split(/[\s\-:,]+/)\<close>: the string is cut at every maximal run of separators. A
  run at the very start gives an empty first piece, a run at the very end an empty
  last piece, and the empty string gives one empty piece.
\<close>

function split_separators :: "jsstring \<Rightarrow> jsstring list" where
  "split_separators s =
     takeWhile (\<lambda>c. \<not> is_separator c) s #
     (case dropWhile (\<lambda>c. \<not> is_separator c) s of
        [] \<Rightarrow> []
      | c # rest \<Rightarrow> split_separators (dropWhile is_separator rest))"
  by pat_completeness auto
termination
proof (relation "measure length")
  fix s :: jsstring and c rest
  assume d: "dropWhile (\<lambda>c. \<not> is_separator c) s = c # rest"
  have "length (dropWhile is_separator rest) \<le> length rest"
    by (rule length_dropWhile_le)
  moreover have "length (c # rest) \<le> length s"
    unfolding d [symmetric] by (rule length_dropWhile_le)
  ultimately show "(dropWhile is_separator rest, s) \<in> measure length"
    by simp
qed simp

text \<open>The equation is used by hand: it would unfold without end.\<close>

declare split_separators.simps [simp del]

text \<open>\<open>words.join(sep)\<close>.\<close>

fun js_join :: "jsstring \<Rightarrow> jsstring list \<Rightarrow> jsstring" where
  "js_join sep [] = []"
| "js_join sep [w] = w"
| "js_join sep (w # v # ws) = w @ sep @ js_join sep (v # ws)"

text \<open>Lines 196-199: the surviving, escaped fragments.\<close>

definition fuzzy_fragments :: "jsstring \<Rightarrow> jsstring list" where
  "fuzzy_fragments title = filter (\<lambda>word. length word > 2) (split_separators title)"

definition fuzzy_words :: "jsstring \<Rightarrow> jsstring list" where
  "fuzzy_words title = map escape_regex (fuzzy_fragments title)"

text \<open>
  Lines 201-202: the pattern \<open>.*w1.*w2 ... .*wn.*\<close> when at least one fragment
  survives, and no pattern otherwise.
\<close>

definition buildFuzzyFilter :: "jsstring \<Rightarrow> jsstring option" where
  "buildFuzzyFilter title =
     (let ws = fuzzy_words title
      in if length ws > 0 then Some (js ''.*'' @ js_join (js ''.*'') ws @ js ''.*'') else None)"


section \<open>How a pattern is read\<close>









section \<open>downloadFromRss (spotifyDownloader.js, lines 95-149)\<close>

text \<open>
  The result objects of \<open>downloadFromRss\<close> and \<open>downloadSpotifyEpisode\<close>; a property
  that the object literal does not set is \<open>None\<close>.
\<close>

record result =
  success :: bool
  filePath :: "jsstring option"
  fileName :: "jsstring option"
  error :: "jsstring option"
  title :: "jsstring option"
  podcastName :: "jsstring option"
  rssUrl :: "jsstring option"

definition failure :: "jsstring \<Rightarrow> result" where
  "failure m =
     \<lparr>success = False, filePath = None, fileName = None, error = Some m,
      title = None, podcastName = None, rssUrl = None\<rparr>"

text \<open>
  What one call meets outside the program: whether creating the directory throws, whether
  running the command line rejects (non-zero exit, timeout, buffer overrun; \<open>None\<close> is an
  exit with status zero), the listing of the output directory after the tool has exited,
  the modification time of a path in milliseconds, and \<open>path.join\<close>. A thrown error is
  given by its message.
\<close>

record dl_world =
  mkdir_error :: "jsstring option"
  exec_error :: "jsstring \<Rightarrow> jsstring option"
  readdir :: "jsstring + jsstring list"
  stat_mtime :: "jsstring \<Rightarrow> jsstring + int"
  path_join :: "jsstring \<Rightarrow> jsstring \<Rightarrow> jsstring"

definition dquote :: jschar where
  "dquote = 0x22"

text \<open>Lines 103-109: the command line; the filter is added when it is truthy.\<close>

definition command_line :: "jsstring \<Rightarrow> jsstring \<Rightarrow> jsstring option \<Rightarrow> jsstring" where
  "command_line rss outputDir episodeFilter =
     (let command =
        js ''npx podcast-dl --url '' @ [dquote] @ rss @ [dquote] @
        js '' --out-dir '' @ [dquote] @ outputDir @ [dquote] @
        js '' --episode-template '' @ [dquote] @ js ''{{episode_title}}'' @ [dquote]
      in case episodeFilter of
           None \<Rightarrow> command
         | Some f \<Rightarrow>
             if f = [] then command
             else command @ js '' --episode-regex '' @ [dquote] @
                  concat (map (\<lambda>c. if c = dquote then [backslash, dquote] else [c]) f) @
                  [dquote])"

definition endsWith :: "jsstring \<Rightarrow> jsstring \<Rightarrow> bool" where
  "endsWith s suf = (length suf \<le> length s \<and> drop (length s - length suf) s = suf)"

definition is_audio :: "jsstring \<Rightarrow> bool" where
  "is_audio f = (endsWith f (js ''.mp3'') \<or> endsWith f (js ''.m4a'') \<or> endsWith f (js ''.wav''))"

text \<open>Lines 132-136: name, path and mtime of each file; the first throwing stat aborts.\<close>

fun filesWithStats ::
  "dl_world \<Rightarrow> jsstring \<Rightarrow> jsstring list \<Rightarrow> jsstring + (jsstring \<times> jsstring \<times> int) list" where
  "filesWithStats w outputDir [] = Inr []"
| "filesWithStats w outputDir (f # fs) =
     (case stat_mtime w (path_join w outputDir f) of
        Inl m \<Rightarrow> Inl m
      | Inr t \<Rightarrow>
          (case filesWithStats w outputDir fs of
             Inl m \<Rightarrow> Inl m
           | Inr rest \<Rightarrow> Inr ((f, path_join w outputDir f, t) # rest)))"

text \<open>
  The function. Each \<open>Inl\<close>/\<open>Some\<close> error is an exception caught at lines 145-148. The
  sort of line 138 is stable and descending in mtime. Reading element 0 of an empty sorted
  list would throw a TypeError; the list is never empty there, since it is as long as
  the non-empty \<open>files\<close>.
\<close>

definition downloadFromRss ::
  "dl_world \<Rightarrow> jsstring \<Rightarrow> jsstring \<Rightarrow> jsstring option \<Rightarrow> result" where
  "downloadFromRss w rss outputDir episodeFilter =
     (case mkdir_error w of
        Some m \<Rightarrow> failure m
      | None \<Rightarrow>
     (case exec_error w (command_line rss outputDir episodeFilter) of
        Some m \<Rightarrow> failure m
      | None \<Rightarrow>
     (case readdir w of
        Inl m \<Rightarrow> failure m
      | Inr names \<Rightarrow>
          (let files = filter is_audio names
           in if length files = 0 then failure (js ''No audio files downloaded'')
              else
                (case filesWithStats w outputDir files of
                   Inl m \<Rightarrow> failure m
                 | Inr stats \<Rightarrow>
                     (case sort_key (\<lambda>(name, path, mtime). - mtime) stats of
                        [] \<Rightarrow> failure (js ''Cannot read properties of undefined'')
                      | (name, path, mtime) # others \<Rightarrow>
                          \<lparr>success = True, filePath = Some path, fileName = Some name,
                           error = None, title = None, podcastName = None,
                           rssUrl = None\<rparr>))))))"

section \<open>getSpotifyInfo (lines 25-42) and downloadSpotifyEpisode (lines 159-219)\<close>

datatype spotify_type = Episode | Show

record oembed_data =
  oembed_title :: "jsstring option"

record spotify_info =
  info_title :: "jsstring option"
  info_type :: spotify_type

text \<open>\<open>s.includes(sub)\<close>.\<close>

fun js_includes :: "jsstring \<Rightarrow> jsstring \<Rightarrow> bool" where
  "js_includes [] sub = (sub = [])"
| "js_includes (c # cs) sub = (prefix sub (c # cs) \<or> js_includes cs sub)"

definition getSpotifyInfo :: "oembed_data fetched \<Rightarrow> jsstring \<Rightarrow> spotify_info option" where
  "getSpotifyInfo response spotifyUrl =
     (case response of
        FetchError m \<Rightarrow> None
      | HttpError st \<Rightarrow> None
      | BadJson m \<Rightarrow> None
      | Json d \<Rightarrow>
          Some \<lparr>info_title = js_or (oembed_title d) None,
                info_type = (if js_includes spotifyUrl (js ''/episode/'') then Episode else Show)\<rparr>)"

text \<open>
  The services one run meets: the oEmbed answer for a URL, the iTunes answer for a query
  and an entity, and what the first, second, ... call of \<open>downloadFromRss\<close> meets.
\<close>

record env =
  oembed :: "jsstring \<Rightarrow> oembed_data fetched"
  itunes :: "jsstring \<Rightarrow> jsstring \<Rightarrow> itunes_data fetched"
  attempt :: "nat \<Rightarrow> dl_world"

text \<open>Lines 207-218: what is returned for the last download result.\<close>

definition finish :: "jsstring \<Rightarrow> feed_candidate \<Rightarrow> result \<Rightarrow> result" where
  "finish t itunesResult downloadResult =
     (if \<not> success downloadResult then downloadResult
      else \<lparr>success = True, filePath = filePath downloadResult,
            fileName = fileName downloadResult, error = None, title = Some t,
            podcastName = cand_collectionName itunesResult,
            rssUrl = cand_feedUrl itunesResult\<rparr>)"

text \<open>
  The function returns its result together with the filters of the calls of
  \<open>downloadFromRss\<close> it made, in order (\<open>None\<close> is a call with no filter).
\<close>

definition downloadSpotifyEpisode ::
  "env \<Rightarrow> jsstring \<Rightarrow> jsstring \<Rightarrow> result \<times> jsstring option list" where
  "downloadSpotifyEpisode e spotifyUrl outputDir =
     (case getSpotifyInfo (oembed e spotifyUrl) spotifyUrl of
        None \<Rightarrow> (failure (js ''Could not fetch podcast info from Spotify''), [])
      | Some spotifyInfo \<Rightarrow>
     (case info_title spotifyInfo of
        None \<Rightarrow> (failure (js ''Could not fetch podcast info from Spotify''), [])
      | Some t \<Rightarrow>
     if t = [] then (failure (js ''Could not fetch podcast info from Spotify''), [])
     else
     (let entity = (if info_type spotifyInfo = Episode then js ''podcastEpisode''
                    else js ''podcast'');
          episodeFilter = (if info_type spotifyInfo = Episode then Some (buildExactFilter t)
                           else None)
      in case searchItunesRss (itunes e t entity) of
           None \<Rightarrow> (failure (js ''Could not find RSS feed in iTunes''), [])
         | Some itunesResult \<Rightarrow>
        (case cand_feedUrl itunesResult of
           None \<Rightarrow> (failure (js ''Could not find RSS feed in iTunes''), [])
         | Some rss \<Rightarrow>
             if rss = [] then (failure (js ''Could not find RSS feed in iTunes''), [])
             else
               (let downloadResult = downloadFromRss (attempt e 0) rss outputDir episodeFilter
                in if \<not> success downloadResult \<and> info_type spotifyInfo = Episode then
                     (case buildFuzzyFilter t of
                        Some partialFilter \<Rightarrow>
                          (finish t itunesResult
                             (downloadFromRss (attempt e 1) rss outputDir (Some partialFilter)),
                           [episodeFilter, Some partialFilter])
                      | None \<Rightarrow> (finish t itunesResult downloadResult, [episodeFilter]))
                   else (finish t itunesResult downloadResult, [episodeFilter]))))))"


section \<open>Example inputs\<close>

text \<open>A call in which the tool exits with an error.\<close>

definition world_tool_fails :: dl_world where
  "world_tool_fails =
     \<lparr>mkdir_error = None, exec_error = (\<lambda>c. Some (js ''Command failed'')),
      readdir = Inr [], stat_mtime = (\<lambda>p. Inr 0),
      path_join = (\<lambda>d f. d @ js ''/'' @ f)\<rparr>"

text \<open>A call in which the tool exits with status zero and the listing is as given.\<close>

definition world_tool_ok :: "jsstring list \<Rightarrow> dl_world" where
  "world_tool_ok names =
     \<lparr>mkdir_error = None, exec_error = (\<lambda>c. None),
      readdir = Inr names, stat_mtime = (\<lambda>p. Inr 0),
      path_join = (\<lambda>d f. d @ js ''/'' @ f)\<rparr>"

text \<open>
  Services that answer every lookup with the given title and every search with the given
  results; the first call of \<open>downloadFromRss\<close> meets \<open>w0\<close>, the later ones \<open>w1\<close>.
\<close>

definition example_env :: "jsstring \<Rightarrow> itunes_result list \<Rightarrow> dl_world \<Rightarrow> dl_world \<Rightarrow> env" where
  "example_env t rs w0 w1 =
     \<lparr>oembed = (\<lambda>u. Json \<lparr>oembed_title = Some t\<rparr>),
      itunes = (\<lambda>q en. Json \<lparr>results = Some rs\<rparr>),
      attempt = (\<lambda>n. if n = 0 then w0 else w1)\<rparr>"

definition example_result :: itunes_result where
  "example_result =
     \<lparr>feedUrl = Some (js ''https://feed.example/x.xml''),
      collectionName = Some (js ''Example Podcast''), trackName = None\<rparr>"


section \<open>Properties of the feed search\<close>

lemma searchItunesRss_loop_find:
  "\<forall>v\<in>seen. \<not> truthy v \<Longrightarrow>
   searchItunesRss_loop seen rs =
     map_option candidate_of (find (\<lambda>r. truthy (feedUrl r)) rs)"
  by (induction rs arbitrary: seen) auto

lemma searchItunesRss_Json:
  "searchItunesRss (Json \<lparr>results = Some rs\<rparr>) =
     map_option candidate_of (find (\<lambda>r. truthy (feedUrl r)) rs)"
  by (cases rs) (simp_all add: searchItunesRss_def searchItunesRss_loop_find)

lemma search_itunes_unique_feeds:
  "set (map feedUrl (search_itunes_unique seen rs)) \<inter> seen = {}"
  by (induction rs arbitrary: seen) auto

lemma search_itunes_unique_distinct:
  "distinct (map feedUrl (search_itunes_unique seen rs))"
proof (induction rs arbitrary: seen)
  case Nil
  then show ?case by simp
next
  case (Cons r rs)
  have "feedUrl r \<notin> set (map feedUrl (search_itunes_unique (insert (feedUrl r) seen) rs))"
    using search_itunes_unique_feeds [of "insert (feedUrl r) seen" rs] by auto
  with Cons show ?case by simp
qed

lemma search_itunes_unique_take1:
  "\<forall>v\<in>seen. \<not> truthy v \<Longrightarrow>
   take 1 (search_itunes_unique seen rs) =
     (case find (\<lambda>r. truthy (feedUrl r)) rs of None \<Rightarrow> [] | Some r \<Rightarrow> [r])"
  by (induction rs arbitrary: seen) auto

lemma candidates_Json:
  "candidates (Json \<lparr>results = Some rs\<rparr>) =
     (case find (\<lambda>r. truthy (feedUrl r)) rs of None \<Rightarrow> [] | Some r \<Rightarrow> [candidate_of r])"
  by (simp add: candidates_def searchItunesRss_Json split: option.splits)

lemma find_first_truthy:
  "truthy (feedUrl r) \<Longrightarrow> \<forall>p\<in>set pre. \<not> truthy (feedUrl p) \<Longrightarrow>
   find (\<lambda>r. truthy (feedUrl r)) (pre @ r # post) = Some r"
  by (induction pre) auto

text \<open>
  Claim C1, as the code has it. The search hands back at most one candidate, so its
  result never holds two entries with equal feedUrl: it is the first entry of the
  first-seen-order deduplication by feedUrl (the list the shell script's search builds),
  that is the first result bearing a non-empty feedUrl, with its displayName. Whatever
  follows that result, a duplicate of its feedUrl or the first bearer of another one, is
  dropped and does not replace the stored displayName.
\<close>

theorem search_first_of_deduplicated:
  "candidates (Json \<lparr>results = Some rs\<rparr>) =
     map candidate_of (take 1 (search_itunes_unique {} rs))
   \<and> distinct (map cand_feedUrl (candidates (Json \<lparr>results = Some rs\<rparr>)))
   \<and> (\<forall>pre r post.
         rs = pre @ r # post \<and> truthy (feedUrl r) \<and> (\<forall>p\<in>set pre. \<not> truthy (feedUrl p))
         \<longrightarrow> candidates (Json \<lparr>results = Some rs\<rparr>) = [candidate_of r])"
proof (intro conjI allI impI)
  show "candidates (Json \<lparr>results = Some rs\<rparr>) =
     map candidate_of (take 1 (search_itunes_unique {} rs))"
    using search_itunes_unique_take1 [of "{}" rs]
    by (simp add: candidates_Json split: option.splits)
  show "distinct (map cand_feedUrl (candidates (Json \<lparr>results = Some rs\<rparr>)))"
    by (simp add: candidates_Json split: option.splits)
next
  fix pre r post
  assume "rs = pre @ r # post \<and> truthy (feedUrl r) \<and> (\<forall>p\<in>set pre. \<not> truthy (feedUrl p))"
  then show "candidates (Json \<lparr>results = Some rs\<rparr>) = [candidate_of r]"
    by (simp add: candidates_Json find_first_truthy)
qed

text \<open>
  Two results with the same feedUrl and different display names, after one without a
  feedUrl: one candidate, with the display name seen first.
\<close>

theorem search_first_of_deduplicated_witness:
  "candidates (Json \<lparr>results = Some
      [\<lparr>feedUrl = None, collectionName = Some (js ''Zero''), trackName = None\<rparr>,
       \<lparr>feedUrl = Some (js ''https://feed.example/x.xml''),
        collectionName = Some (js ''First''), trackName = None\<rparr>,
       \<lparr>feedUrl = Some (js ''https://feed.example/x.xml''),
        collectionName = Some (js ''Second''), trackName = None\<rparr>]\<rparr>) =
   [\<lparr>cand_feedUrl = Some (js ''https://feed.example/x.xml''),
     cand_collectionName = Some (js ''First'')\<rparr>]"
  using search_first_of_deduplicated [of
      "[\<lparr>feedUrl = None, collectionName = Some (js ''Zero''), trackName = None\<rparr>,
       \<lparr>feedUrl = Some (js ''https://feed.example/x.xml''),
        collectionName = Some (js ''First''), trackName = None\<rparr>,
       \<lparr>feedUrl = Some (js ''https://feed.example/x.xml''),
        collectionName = Some (js ''Second''), trackName = None\<rparr>]"]
  by (simp add: candidate_of_def js_or_def truthy_def js_def)

text \<open>
  Claim C1 as stated asks that the first result bearing any given feedUrl be kept. With
  two results bearing different feedUrls the second feedUrl is not among the candidates.
\<close>

theorem search_drops_second_feed_counterexample:
  "map cand_feedUrl (candidates (Json \<lparr>results = Some
      [\<lparr>feedUrl = Some (js ''https://a.example/feed.xml''),
        collectionName = Some (js ''A''), trackName = None\<rparr>,
       \<lparr>feedUrl = Some (js ''https://b.example/feed.xml''),
        collectionName = Some (js ''B''), trackName = None\<rparr>]\<rparr>)) =
     [Some (js ''https://a.example/feed.xml'')]
   \<and> Some (js ''https://b.example/feed.xml'') \<notin> set (map cand_feedUrl (candidates (Json \<lparr>results = Some
      [\<lparr>feedUrl = Some (js ''https://a.example/feed.xml''),
        collectionName = Some (js ''A''), trackName = None\<rparr>,
       \<lparr>feedUrl = Some (js ''https://b.example/feed.xml''),
        collectionName = Some (js ''B''), trackName = None\<rparr>]\<rparr>)))"
  by (simp add: candidates_def searchItunesRss_def candidate_of_def js_or_def truthy_def js_def)

text \<open>
  Claim C10. For every response list the search returns at most one candidate: the
  first result in response order whose feedUrl is non-empty (results without one are
  skipped), with the displayName taken from collectionName, else from trackName, else the
  literal "Unknown"; a missing and an empty name both count as absent. When no result has
  a feedUrl the search returns the empty outcome.
\<close>

theorem searchItunesRss_first_with_feedUrl:
  "searchItunesRss (Json \<lparr>results = Some rs\<rparr>) =
     (case find (\<lambda>r. truthy (feedUrl r)) rs of
        None \<Rightarrow> None
      | Some r \<Rightarrow>
          Some \<lparr>cand_feedUrl = feedUrl r,
                cand_collectionName =
                  (if truthy (collectionName r) then collectionName r
                   else if truthy (trackName r) then trackName r
                   else Some (js ''Unknown''))\<rparr>)
   \<and> length (candidates (Json \<lparr>results = Some rs\<rparr>)) \<le> 1"
  by (simp add: searchItunesRss_Json candidates_Json candidate_of_def js_or_def
      split: option.splits)

text \<open>
  A result with no feedUrl and one with an empty feedUrl are skipped; the third result
  has no collectionName, so its trackName is the display name; the fourth is never
  reached.
\<close>

theorem searchItunesRss_first_with_feedUrl_witness:
  "searchItunesRss (Json \<lparr>results = Some
      [\<lparr>feedUrl = None, collectionName = Some (js ''No feed''), trackName = None\<rparr>,
       \<lparr>feedUrl = Some [], collectionName = Some (js ''Empty feed''), trackName = None\<rparr>,
       \<lparr>feedUrl = Some (js ''https://feed.example/x.xml''),
        collectionName = None, trackName = Some (js ''Track'')\<rparr>,
       \<lparr>feedUrl = Some (js ''https://feed.example/y.xml''),
        collectionName = Some (js ''Other''), trackName = None\<rparr>]\<rparr>) =
   Some \<lparr>cand_feedUrl = Some (js ''https://feed.example/x.xml''),
         cand_collectionName = Some (js ''Track'')\<rparr>"
  using searchItunesRss_first_with_feedUrl [of
      "[\<lparr>feedUrl = None, collectionName = Some (js ''No feed''), trackName = None\<rparr>,
       \<lparr>feedUrl = Some [], collectionName = Some (js ''Empty feed''), trackName = None\<rparr>,
       \<lparr>feedUrl = Some (js ''https://feed.example/x.xml''),
        collectionName = None, trackName = Some (js ''Track'')\<rparr>,
       \<lparr>feedUrl = Some (js ''https://feed.example/y.xml''),
        collectionName = Some (js ''Other''), trackName = None\<rparr>]"]
  by (simp add: truthy_def js_def)

text \<open>
  Claim C8, as the code has it. For a well-formed response in which no result carries a
  feedUrl (also an empty or missing result list) the search returns the empty outcome
  \<open>null\<close>, and it returns the same \<open>null\<close> for a non-success status, a network failure
  and an unreadable body: the returned value does not tell the cases apart.
\<close>

theorem searchItunesRss_empty_is_null:
  "(list_all (\<lambda>r. \<not> truthy (feedUrl r)) rs \<longrightarrow>
      searchItunesRss (Json \<lparr>results = Some rs\<rparr>) = None)
   \<and> searchItunesRss (Json \<lparr>results = None\<rparr>) = None
   \<and> searchItunesRss (HttpError st) = None
   \<and> searchItunesRss (FetchError m) = None
   \<and> searchItunesRss (BadJson m) = None"
proof -
  have "find (\<lambda>r. truthy (feedUrl r)) rs = None" if "list_all (\<lambda>r. \<not> truthy (feedUrl r)) rs"
    using that by (simp add: find_None_iff list_all_iff)
  then show ?thesis
    by (simp add: searchItunesRss_Json) (simp add: searchItunesRss_def)
qed

text \<open>
  A response whose only result has no feedUrl.
\<close>

theorem searchItunesRss_empty_is_null_witness:
  "list_all (\<lambda>r. \<not> truthy (feedUrl r))
     [\<lparr>feedUrl = None, collectionName = Some (js ''No feed''), trackName = None\<rparr>]
   \<and> searchItunesRss (Json \<lparr>results = Some
        [\<lparr>feedUrl = None, collectionName = Some (js ''No feed''), trackName = None\<rparr>]\<rparr>) = None"
  using searchItunesRss_empty_is_null [of
      "[\<lparr>feedUrl = None, collectionName = Some (js ''No feed''), trackName = None\<rparr>]"]
  by (simp add: truthy_def)

text \<open>
  Claim C8 as stated asks that the empty outcome be distinguishable in the returned value
  from a transport error. An empty result list, status 503 and a rejected fetch all give
  the same value.
\<close>

theorem searchItunesRss_empty_like_error_counterexample:
  "searchItunesRss (Json \<lparr>results = Some []\<rparr>) = searchItunesRss (HttpError 503)
   \<and> searchItunesRss (Json \<lparr>results = Some []\<rparr>) =
       searchItunesRss (FetchError (js ''socket hang up''))"
  by (simp add: searchItunesRss_def)

section \<open>Properties of the episode filters\<close>























lemma js_join_Cons:
  "js_join sep (w # ws) = (if ws = [] then w else w @ sep @ js_join sep ws)"
  by (cases ws) simp_all
















section \<open>Properties of downloadFromRss\<close>

lemma endsWith_iff: "endsWith s suf = (\<exists>stem. s = stem @ suf)"
proof
  assume "endsWith s suf"
  then have "s = take (length s - length suf) s @ suf"
    by (metis append_take_drop_id endsWith_def)
  then show "\<exists>stem. s = stem @ suf" ..
next
  assume "\<exists>stem. s = stem @ suf"
  then show "endsWith s suf" by (auto simp: endsWith_def)
qed

lemma is_audio_iff:
  "is_audio f = (\<exists>stem. f = stem @ js ''.mp3'' \<or> f = stem @ js ''.m4a'' \<or> f = stem @ js ''.wav'')"
  unfolding is_audio_def endsWith_iff by blast

lemma success_failure: "\<not> success (failure m)"
  by (simp add: failure_def)

lemma filesWithStats_names:
  "filesWithStats w dir fs = Inr stats \<Longrightarrow> map fst stats = fs"
  by (induction fs arbitrary: stats) (auto split: sum.splits)

lemma sort_key_head_in:
  "sort_key k xs = y # ys \<Longrightarrow> y \<in> set xs"
  by (metis list.set_intros(1) set_sort)

lemma downloadFromRss_mkdir_error:
  "mkdir_error w = Some m \<Longrightarrow> downloadFromRss w rss dir flt = failure m"
  by (simp add: downloadFromRss_def)

lemma downloadFromRss_exec_error:
  "mkdir_error w = None \<Longrightarrow> exec_error w (command_line rss dir flt) = Some m \<Longrightarrow>
   downloadFromRss w rss dir flt = failure m"
  by (simp add: downloadFromRss_def)

lemma downloadFromRss_listing:
  "mkdir_error w = None \<Longrightarrow> exec_error w (command_line rss dir flt) = None \<Longrightarrow>
   downloadFromRss w rss dir flt =
     (case readdir w of
        Inl m \<Rightarrow> failure m
      | Inr names \<Rightarrow>
          if filter is_audio names = [] then failure (js ''No audio files downloaded'')
          else
            (case filesWithStats w dir (filter is_audio names) of
               Inl m \<Rightarrow> failure m
             | Inr stats \<Rightarrow>
                 (case sort_key (\<lambda>(name, path, mtime). - mtime) stats of
                    [] \<Rightarrow> failure (js ''Cannot read properties of undefined'')
                  | (name, path, mtime) # others \<Rightarrow>
                      \<lparr>success = True, filePath = Some path, fileName = Some name,
                       error = None, title = None, podcastName = None,
                       rssUrl = None\<rparr>)))"
  by (cases "readdir w") (simp_all add: downloadFromRss_def Let_def)

lemma downloadFromRss_success:
  assumes ok: "success (downloadFromRss w rss dir flt)"
  shows "mkdir_error w = None \<and> exec_error w (command_line rss dir flt) = None
    \<and> (\<exists>names n. readdir w = Inr names \<and> n \<in> set names \<and> is_audio n
          \<and> fileName (downloadFromRss w rss dir flt) = Some n)
    \<and> error (downloadFromRss w rss dir flt) = None"
proof -
  have m: "mkdir_error w = None"
  proof (cases "mkdir_error w")
    case (Some e)
    then show ?thesis using ok downloadFromRss_mkdir_error [of w e rss dir flt]
      by (simp add: success_failure)
  qed simp
  have x: "exec_error w (command_line rss dir flt) = None"
  proof (cases "exec_error w (command_line rss dir flt)")
    case (Some e)
    then show ?thesis using ok downloadFromRss_exec_error [OF m, of rss dir flt e]
      by (simp add: success_failure)
  qed simp
  note l = downloadFromRss_listing [OF m x]
  obtain names where n: "readdir w = Inr names"
  proof (cases "readdir w")
    case (Inl e)
    then show ?thesis using ok l by (simp add: success_failure)
  qed simp
  have f: "filter is_audio names \<noteq> []"
    using ok l n by (auto simp: success_failure)
  obtain stats where s: "filesWithStats w dir (filter is_audio names) = Inr stats"
  proof (cases "filesWithStats w dir (filter is_audio names)")
    case (Inl e)
    then show ?thesis using ok l n f by (simp add: success_failure)
  qed simp
  obtain name path mtime others where
    h: "sort_key (\<lambda>(name, path, mtime). - mtime) stats = (name, path, mtime) # others"
  proof (cases "sort_key (\<lambda>(name, path, mtime). - mtime) stats")
    case Nil
    then show ?thesis using ok l n f s by (simp add: success_failure)
  next
    case (Cons y ys)
    then show ?thesis using that [of "fst y" "fst (snd y)" "snd (snd y)" ys] by simp
  qed
  have r: "downloadFromRss w rss dir flt =
      \<lparr>success = True, filePath = Some path, fileName = Some name, error = None,
       title = None, podcastName = None, rssUrl = None\<rparr>"
    using l n f s h by simp
  have "(name, path, mtime) \<in> set stats" using h by (rule sort_key_head_in)
  then have "name \<in> set (map fst stats)" by force
  then have "name \<in> set (filter is_audio names)"
    using filesWithStats_names [OF s] by simp
  then have "name \<in> set names \<and> is_audio name" by simp
  with m x n r show ?thesis by simp
qed

lemma downloadFromRss_no_audio:
  "mkdir_error w = None \<Longrightarrow> exec_error w (command_line rss dir flt) = None \<Longrightarrow>
   readdir w = Inr names \<Longrightarrow> \<not> list_ex is_audio names \<Longrightarrow>
   downloadFromRss w rss dir flt = failure (js ''No audio files downloaded'')"
  using downloadFromRss_listing [of w rss dir flt]
  by (simp add: list_ex_iff filter_empty_conv)

text \<open>
  Claim C9. A download attempt reports success only if the tool has exited without an
  error and the listing of the output directory taken afterwards holds a file whose name
  ends in \<open>.mp3\<close>, \<open>.m4a\<close> or \<open>.wav\<close>; the reported file is such a file. When the
  tool has exited with status zero and the listing holds no such file, the outcome is the
  failure "No audio files downloaded", not a success.
\<close>

theorem download_success_only_with_audio:
  "(success (downloadFromRss w rss dir flt) \<longrightarrow>
      exec_error w (command_line rss dir flt) = None
      \<and> (\<exists>names n. readdir w = Inr names \<and> n \<in> set names \<and> is_audio n
            \<and> fileName (downloadFromRss w rss dir flt) = Some n))
   \<and> (mkdir_error w = None \<and> exec_error w (command_line rss dir flt) = None
        \<and> readdir w = Inr names \<and> \<not> list_ex is_audio names \<longrightarrow>
      downloadFromRss w rss dir flt = failure (js ''No audio files downloaded'')
      \<and> \<not> success (downloadFromRss w rss dir flt))
   \<and> is_audio f =
       (\<exists>stem. f = stem @ js ''.mp3'' \<or> f = stem @ js ''.m4a'' \<or> f = stem @ js ''.wav'')"
proof (intro conjI impI)
  assume "success (downloadFromRss w rss dir flt)"
  then show "exec_error w (command_line rss dir flt) = None"
    and "\<exists>names n. readdir w = Inr names \<and> n \<in> set names \<and> is_audio n
            \<and> fileName (downloadFromRss w rss dir flt) = Some n"
    using downloadFromRss_success [of w rss dir flt] by blast+
next
  assume a: "mkdir_error w = None \<and> exec_error w (command_line rss dir flt) = None
        \<and> readdir w = Inr names \<and> \<not> list_ex is_audio names"
  then show "downloadFromRss w rss dir flt = failure (js ''No audio files downloaded'')"
    using downloadFromRss_no_audio [of w rss dir flt names] by blast
  then show "\<not> success (downloadFromRss w rss dir flt)"
    by (simp add: success_failure)
next
  show "is_audio f =
       (\<exists>stem. f = stem @ js ''.mp3'' \<or> f = stem @ js ''.m4a'' \<or> f = stem @ js ''.wav'')"
    by (rule is_audio_iff)
qed

text \<open>
  A directory that holds only \<open>notes.txt\<close> after a clean exit gives the no-audio
  failure; one that also holds two audio files gives success with the newer file.
\<close>

theorem download_success_only_with_audio_witness:
  "\<not> list_ex is_audio [js ''notes.txt'']
   \<and> downloadFromRss
       \<lparr>mkdir_error = None, exec_error = (\<lambda>c. None), readdir = Inr [js ''notes.txt''],
        stat_mtime = (\<lambda>p. Inr 0), path_join = (\<lambda>d f. d @ js ''/'' @ f)\<rparr>
       (js ''https://feed.example/x.xml'') (js ''downloads'') None =
     failure (js ''No audio files downloaded'')
   \<and> success (downloadFromRss
       \<lparr>mkdir_error = None, exec_error = (\<lambda>c. None),
        readdir = Inr [js ''notes.txt'', js ''old.mp3'', js ''new.m4a''],
        stat_mtime = (\<lambda>p. if p = js ''downloads/new.m4a'' then Inr 200 else Inr 100),
        path_join = (\<lambda>d f. d @ js ''/'' @ f)\<rparr>
       (js ''https://feed.example/x.xml'') (js ''downloads'') None)
   \<and> fileName (downloadFromRss
       \<lparr>mkdir_error = None, exec_error = (\<lambda>c. None),
        readdir = Inr [js ''notes.txt'', js ''old.mp3'', js ''new.m4a''],
        stat_mtime = (\<lambda>p. if p = js ''downloads/new.m4a'' then Inr 200 else Inr 100),
        path_join = (\<lambda>d f. d @ js ''/'' @ f)\<rparr>
       (js ''https://feed.example/x.xml'') (js ''downloads'') None) = Some (js ''new.m4a'')"
proof -
  let ?w = "\<lparr>mkdir_error = None, exec_error = (\<lambda>c. None), readdir = Inr [js ''notes.txt''],
        stat_mtime = (\<lambda>p. Inr 0), path_join = (\<lambda>d f. d @ js ''/'' @ f)\<rparr>"
  have a: "\<not> list_ex is_audio [js ''notes.txt'']"
    by (simp add: is_audio_def endsWith_def js_def)
  have b: "downloadFromRss ?w (js ''https://feed.example/x.xml'') (js ''downloads'') None =
     failure (js ''No audio files downloaded'')"
    using a download_success_only_with_audio [of ?w "js ''https://feed.example/x.xml''"
        "js ''downloads''" None "[js ''notes.txt'']"]
    by simp
  have c: "downloadFromRss
       \<lparr>mkdir_error = None, exec_error = (\<lambda>c. None),
        readdir = Inr [js ''notes.txt'', js ''old.mp3'', js ''new.m4a''],
        stat_mtime = (\<lambda>p. if p = js ''downloads/new.m4a'' then Inr 200 else Inr 100),
        path_join = (\<lambda>d f. d @ js ''/'' @ f)\<rparr>
       (js ''https://feed.example/x.xml'') (js ''downloads'') None =
      \<lparr>success = True, filePath = Some (js ''downloads/new.m4a''),
       fileName = Some (js ''new.m4a''), error = None,
       title = None, podcastName = None, rssUrl = None\<rparr>"
    by (simp add: downloadFromRss_def is_audio_def endsWith_def js_def Let_def)
  from a b c show ?thesis by simp
qed

section \<open>Properties of downloadSpotifyEpisode\<close>

lemma searchItunesRss_feed_truthy:
  "searchItunesRss response = Some c \<Longrightarrow> truthy (cand_feedUrl c)"
proof (cases response)
  case (Json d)
  assume s: "searchItunesRss response = Some c"
  obtain rs where d: "d = \<lparr>results = rs\<rparr>" by (cases d) simp
  show ?thesis
  proof (cases rs)
    case None
    with s Json d show ?thesis by (simp add: searchItunesRss_def)
  next
    case (Some xs)
    with s Json d obtain r where
      "find (\<lambda>r. truthy (feedUrl r)) xs = Some r" "c = candidate_of r"
      by (auto simp: searchItunesRss_Json)
    then show ?thesis by (auto simp: find_Some_iff candidate_of_def)
  qed
qed (simp_all add: searchItunesRss_def)

lemma candidates_Nil: "(candidates response = []) = (searchItunesRss response = None)"
  by (cases "searchItunesRss response") (simp_all add: candidates_def)

lemma getSpotifyInfo_Json:
  "getSpotifyInfo (Json d) url =
     Some \<lparr>info_title = (if truthy (oembed_title d) then oembed_title d else None),
           info_type = (if js_includes url (js ''/episode/'') then Episode else Show)\<rparr>"
  by (simp add: getSpotifyInfo_def js_or_def)

text \<open>The run after its first two stages have succeeded.\<close>

lemma downloadSpotifyEpisode_found:
  assumes "oembed e url = Json d" "oembed_title d = Some t" "t \<noteq> []"
    and "searchItunesRss (itunes e t
           (if js_includes url (js ''/episode/'') then js ''podcastEpisode'' else js ''podcast''))
         = Some c"
    and "cand_feedUrl c = Some rss"
  shows "downloadSpotifyEpisode e url dir =
     (let episodeFilter = (if js_includes url (js ''/episode/'') then Some (buildExactFilter t)
                           else None);
          downloadResult = downloadFromRss (attempt e 0) rss dir episodeFilter
      in if \<not> success downloadResult \<and> js_includes url (js ''/episode/'') then
           (case buildFuzzyFilter t of
              Some partialFilter \<Rightarrow>
                (finish t c (downloadFromRss (attempt e 1) rss dir (Some partialFilter)),
                 [episodeFilter, Some partialFilter])
            | None \<Rightarrow> (finish t c downloadResult, [episodeFilter]))
         else (finish t c downloadResult, [episodeFilter]))"
proof -
  have "truthy (cand_feedUrl c)" using assms(4) by (rule searchItunesRss_feed_truthy)
  then have r: "rss \<noteq> []" using assms(5) by (simp add: truthy_def)
  show ?thesis
  proof (cases "js_includes url (js ''/episode/'')")
    case True
    with assms r show ?thesis
      by (simp add: downloadSpotifyEpisode_def getSpotifyInfo_Json truthy_def Let_def)
  next
    case False
    with assms r show ?thesis
      by (simp add: downloadSpotifyEpisode_def getSpotifyInfo_Json truthy_def Let_def)
  qed
qed

lemma downloadSpotifyEpisode_no_feed:
  assumes "oembed e url = Json d" "oembed_title d = Some t" "t \<noteq> []"
    and "candidates (itunes e t
           (if js_includes url (js ''/episode/'') then js ''podcastEpisode'' else js ''podcast''))
         = []"
  shows "downloadSpotifyEpisode e url dir =
     (failure (js ''Could not find RSS feed in iTunes''), [])"
proof -
  have n: "searchItunesRss (itunes e t
           (if js_includes url (js ''/episode/'') then js ''podcastEpisode'' else js ''podcast''))
         = None"
    using assms(4) by (simp only: candidates_Nil)
  show ?thesis
  proof (cases "js_includes url (js ''/episode/'')")
    case True
    with assms(1-3) n show ?thesis
      by (simp add: downloadSpotifyEpisode_def getSpotifyInfo_Json truthy_def Let_def)
  next
    case False
    with assms(1-3) n show ?thesis
      by (simp add: downloadSpotifyEpisode_def getSpotifyInfo_Json truthy_def Let_def)
  qed
qed

lemma downloadSpotifyEpisode_show_calls:
  assumes "\<not> js_includes url (js ''/episode/'')"
  shows "snd (downloadSpotifyEpisode e url dir) = [] \<or> snd (downloadSpotifyEpisode e url dir) = [None]"
  using assms
  by (simp add: downloadSpotifyEpisode_def getSpotifyInfo_def Let_def
      split: fetched.splits option.splits)

lemma downloadSpotifyEpisode_calls_le2:
  "length (snd (downloadSpotifyEpisode e url dir)) \<le> 2"
  by (simp add: downloadSpotifyEpisode_def getSpotifyInfo_def Let_def
      split: fetched.splits option.splits)


section \<open>The fuzzy filter and the runs\<close>

lemma revolution_split:
  "split_separators (js ''The A.I. Revolution: Part One'') =
     [js ''The'', js ''A.I.'', js ''Revolution'', js ''Part'', js ''One'']"
  by (simp add: split_separators.simps js_def is_separator_def is_space_def)

text \<open>
  Claim C3, as the code has it. The title "The A.I. Revolution: Part One" is cut into
  The, A.I., Revolution, Part and One: the period is not a separator, so "A.I." is one
  fragment of four characters. No fragment has length two or less, and all five stand in
  the pattern in their order, the periods escaped.
\<close>

theorem fuzzy_filter_of_revolution_title:
  "split_separators (js ''The A.I. Revolution: Part One'') =
     [js ''The'', js ''A.I.'', js ''Revolution'', js ''Part'', js ''One'']
   \<and> filter (\<lambda>w. length w \<le> 2) (split_separators (js ''The A.I. Revolution: Part One'')) = []
   \<and> fuzzy_fragments (js ''The A.I. Revolution: Part One'') =
       [js ''The'', js ''A.I.'', js ''Revolution'', js ''Part'', js ''One'']
   \<and> buildFuzzyFilter (js ''The A.I. Revolution: Part One'') =
       Some (js ''.*The.*A'' @ [backslash] @ js ''.I'' @ [backslash] @
             js ''..*Revolution.*Part.*One.*'')"
proof -
  have f: "fuzzy_fragments (js ''The A.I. Revolution: Part One'') =
       [js ''The'', js ''A.I.'', js ''Revolution'', js ''Part'', js ''One'']"
    by (simp add: fuzzy_fragments_def revolution_split) (simp add: js_def)
  have s: "filter (\<lambda>w. length w \<le> 2) (split_separators (js ''The A.I. Revolution: Part One'')) = []"
    by (simp add: revolution_split) (simp add: js_def)
  have b: "buildFuzzyFilter (js ''The A.I. Revolution: Part One'') =
       Some (js ''.*The.*A'' @ [backslash] @ js ''.I'' @ [backslash] @
             js ''..*Revolution.*Part.*One.*'')"
    by (simp add: buildFuzzyFilter_def fuzzy_words_def f)
      (simp add: escape_regex_def is_special_def backslash_def js_def)
  from revolution_split f s b show ?thesis by (intro conjI)
qed

text \<open>
  Claim C3 as stated has the fragments "A" and "I" produced and then dropped. Neither is
  among the pieces of the title, and "A.I." is among the surviving fragments.
\<close>

theorem fuzzy_filter_keeps_initials_counterexample:
  "js ''A'' \<notin> set (split_separators (js ''The A.I. Revolution: Part One''))
   \<and> js ''I'' \<notin> set (split_separators (js ''The A.I. Revolution: Part One''))
   \<and> js ''A.I.'' \<in> set (fuzzy_fragments (js ''The A.I. Revolution: Part One''))"
  by (simp add: fuzzy_fragments_def revolution_split) (simp add: js_def)


lemma deep_dive_split:
  "split_separators (js ''Episode 42: Deep Dive'') =
     [js ''Episode'', js ''42'', js ''Deep'', js ''Dive'']"
  by (simp add: split_separators.simps js_def is_separator_def is_space_def)

lemma deep_dive_fragments:
  "fuzzy_fragments (js ''Episode 42: Deep Dive'') = [js ''Episode'', js ''Deep'', js ''Dive'']"
  by (simp add: fuzzy_fragments_def deep_dive_split) (simp add: js_def)

lemma deep_dive_fuzzy:
  "buildFuzzyFilter (js ''Episode 42: Deep Dive'') = Some (js ''.*Episode.*Deep.*Dive.*'')"
  by (simp add: buildFuzzyFilter_def fuzzy_words_def deep_dive_fragments)
    (simp add: escape_regex_def is_special_def backslash_def js_def)

lemma deep_dive_exact:
  "buildExactFilter (js ''Episode 42: Deep Dive'') = js ''Episode 42: Deep Dive''"
  by (simp add: buildExactFilter_def escape_regex_def is_special_def backslash_def js_def)


lemma episode_url: "js_includes (js ''https://open.spotify.com/episode/abc'') (js ''/episode/'')"
  by (simp add: js_def)

lemma show_url: "\<not> js_includes (js ''https://open.spotify.com/show/abc'') (js ''/episode/'')"
  by (simp add: js_def)

lemma example_search:
  "searchItunesRss (itunes (example_env t [example_result] w0 w1) q en) =
     Some \<lparr>cand_feedUrl = Some (js ''https://feed.example/x.xml''),
           cand_collectionName = Some (js ''Example Podcast'')\<rparr>"
  by (simp add: example_env_def example_result_def searchItunesRss_def candidate_of_def
      js_or_def truthy_def js_def)

lemma world_tool_fails_result:
  "downloadFromRss world_tool_fails rss dir flt = failure (js ''Command failed'')"
  by (simp add: downloadFromRss_def world_tool_fails_def)

lemma world_tool_ok_result:
  "downloadFromRss (world_tool_ok [js ''Deep Dive.mp3'']) rss dir flt =
     \<lparr>success = True, filePath = Some (dir @ js ''/Deep Dive.mp3''),
      fileName = Some (js ''Deep Dive.mp3''), error = None, title = None,
      podcastName = None, rssUrl = None\<rparr>"
  by (simp add: downloadFromRss_def world_tool_ok_def Let_def is_audio_def endsWith_def js_def)






text \<open>
  Claim C5. A run on a URL without "/episode/" (a show) calls the download at most once,
  with no filter, and never a second time; when the title and the feed are found, the
  result of that one call is what the run returns, whether it succeeded or not.
\<close>

theorem show_run_single_attempt:
  "\<not> js_includes url (js ''/episode/'') \<Longrightarrow>
   (snd (downloadSpotifyEpisode e url dir) = [] \<or> snd (downloadSpotifyEpisode e url dir) = [None])
   \<and> length (snd (downloadSpotifyEpisode e url dir)) \<le> 1
   \<and> (\<forall>d t c rss.
         oembed e url = Json d \<and> oembed_title d = Some t \<and> t \<noteq> []
         \<and> searchItunesRss (itunes e t (js ''podcast'')) = Some c \<and> cand_feedUrl c = Some rss
         \<longrightarrow> downloadSpotifyEpisode e url dir =
               (finish t c (downloadFromRss (attempt e 0) rss dir None), [None]))"
proof (intro conjI allI impI)
  assume s: "\<not> js_includes url (js ''/episode/'')"
  then show c: "snd (downloadSpotifyEpisode e url dir) = []
      \<or> snd (downloadSpotifyEpisode e url dir) = [None]"
    by (rule downloadSpotifyEpisode_show_calls)
  then show "length (snd (downloadSpotifyEpisode e url dir)) \<le> 1" by auto
  fix d :: oembed_data and t c rss
  assume "oembed e url = Json d \<and> oembed_title d = Some t \<and> t \<noteq> []
         \<and> searchItunesRss (itunes e t (js ''podcast'')) = Some c \<and> cand_feedUrl c = Some rss"
  then show "downloadSpotifyEpisode e url dir =
               (finish t c (downloadFromRss (attempt e 0) rss dir None), [None])"
    using s downloadSpotifyEpisode_found [of e url d t c rss dir] by (simp add: Let_def)
qed

text \<open>
  A show whose one download fails: the failure is returned after a single unfiltered
  call, although a second call would have succeeded.
\<close>

theorem show_run_single_attempt_witness:
  "\<not> js_includes (js ''https://open.spotify.com/show/abc'') (js ''/episode/'')
   \<and> downloadSpotifyEpisode
        (example_env (js ''Example Podcast'') [example_result] world_tool_fails
           (world_tool_ok [js ''Deep Dive.mp3'']))
        (js ''https://open.spotify.com/show/abc'') (js ''downloads'') =
      (failure (js ''Command failed''), [None])"
proof -
  let ?e = "example_env (js ''Example Podcast'') [example_result] world_tool_fails
           (world_tool_ok [js ''Deep Dive.mp3''])"
  let ?c = "\<lparr>cand_feedUrl = Some (js ''https://feed.example/x.xml''),
           cand_collectionName = Some (js ''Example Podcast'')\<rparr>"
  note w = show_run_single_attempt [OF show_url, of ?e "js ''downloads''"]
  have a: "oembed ?e (js ''https://open.spotify.com/show/abc'') =
        Json \<lparr>oembed_title = Some (js ''Example Podcast'')\<rparr>
      \<and> oembed_title \<lparr>oembed_title = Some (js ''Example Podcast'')\<rparr> = Some (js ''Example Podcast'')
      \<and> js ''Example Podcast'' \<noteq> []
      \<and> searchItunesRss (itunes ?e (js ''Example Podcast'') (js ''podcast'')) = Some ?c
      \<and> cand_feedUrl ?c = Some (js ''https://feed.example/x.xml'')"
    by (simp add: example_search) (simp add: example_env_def js_def)
  have "downloadSpotifyEpisode ?e (js ''https://open.spotify.com/show/abc'') (js ''downloads'') =
      (finish (js ''Example Podcast'') ?c
         (downloadFromRss (attempt ?e 0) (js ''https://feed.example/x.xml'') (js ''downloads'') None),
       [None])"
    using w a by blast
  also have "attempt ?e 0 = world_tool_fails" by (simp add: example_env_def)
  finally show ?thesis
    using show_url by (simp add: world_tool_fails_result finish_def failure_def)
qed

text \<open>
  Claim C6. A run on an episode URL whose title and feed are found, whose download with
  the exact filter fails and whose fuzzy filter exists makes exactly two calls, the exact
  one and then one with the fuzzy filter, and ends with the outcome of the second call:
  its success flag, file path, file name and error. No run at all makes more than two
  calls.
\<close>

theorem episode_run_one_fuzzy_retry:
  assumes "js_includes url (js ''/episode/'')"
    and "oembed e url = Json d" and "oembed_title d = Some t" and "t \<noteq> []"
    and "searchItunesRss (itunes e t (js ''podcastEpisode'')) = Some c"
    and "cand_feedUrl c = Some rss"
    and "\<not> success (downloadFromRss (attempt e 0) rss dir (Some (buildExactFilter t)))"
    and "buildFuzzyFilter t = Some p"
  shows "snd (downloadSpotifyEpisode e url dir) = [Some (buildExactFilter t), Some p]
    \<and> fst (downloadSpotifyEpisode e url dir) =
        finish t c (downloadFromRss (attempt e 1) rss dir (Some p))
    \<and> success (fst (downloadSpotifyEpisode e url dir)) =
        success (downloadFromRss (attempt e 1) rss dir (Some p))
    \<and> filePath (fst (downloadSpotifyEpisode e url dir)) =
        filePath (downloadFromRss (attempt e 1) rss dir (Some p))
    \<and> fileName (fst (downloadSpotifyEpisode e url dir)) =
        fileName (downloadFromRss (attempt e 1) rss dir (Some p))
    \<and> error (fst (downloadSpotifyEpisode e url dir)) =
        error (downloadFromRss (attempt e 1) rss dir (Some p))
    \<and> length (snd (downloadSpotifyEpisode e' url' dir')) \<le> 2"
proof -
  let ?r2 = "downloadFromRss (attempt e 1) rss dir (Some p)"
  have r: "downloadSpotifyEpisode e url dir =
      (finish t c ?r2, [Some (buildExactFilter t), Some p])"
    using assms downloadSpotifyEpisode_found [of e url d t c rss dir]
    by (simp add: Let_def)
  have "success ?r2 \<Longrightarrow> error ?r2 = None"
    using downloadFromRss_success [of "attempt e 1" rss dir "Some p"] by blast
  then have "success (finish t c ?r2) = success ?r2
      \<and> filePath (finish t c ?r2) = filePath ?r2
      \<and> fileName (finish t c ?r2) = fileName ?r2
      \<and> error (finish t c ?r2) = error ?r2"
    by (cases "success ?r2") (simp_all add: finish_def)
  with r show ?thesis by (simp add: downloadSpotifyEpisode_calls_le2)
qed

text \<open>
  An episode whose exact download fails and whose fuzzy download leaves one audio file.
\<close>

theorem episode_run_one_fuzzy_retry_witness:
  "js_includes (js ''https://open.spotify.com/episode/abc'') (js ''/episode/'')
   \<and> \<not> success (downloadFromRss world_tool_fails (js ''https://feed.example/x.xml'')
          (js ''downloads'') (Some (buildExactFilter (js ''Episode 42: Deep Dive''))))
   \<and> buildFuzzyFilter (js ''Episode 42: Deep Dive'') = Some (js ''.*Episode.*Deep.*Dive.*'')
   \<and> snd (downloadSpotifyEpisode
        (example_env (js ''Episode 42: Deep Dive'') [example_result] world_tool_fails
           (world_tool_ok [js ''Deep Dive.mp3'']))
        (js ''https://open.spotify.com/episode/abc'') (js ''downloads'')) =
      [Some (js ''Episode 42: Deep Dive''), Some (js ''.*Episode.*Deep.*Dive.*'')]
   \<and> success (fst (downloadSpotifyEpisode
        (example_env (js ''Episode 42: Deep Dive'') [example_result] world_tool_fails
           (world_tool_ok [js ''Deep Dive.mp3'']))
        (js ''https://open.spotify.com/episode/abc'') (js ''downloads'')))
   \<and> fileName (fst (downloadSpotifyEpisode
        (example_env (js ''Episode 42: Deep Dive'') [example_result] world_tool_fails
           (world_tool_ok [js ''Deep Dive.mp3'']))
        (js ''https://open.spotify.com/episode/abc'') (js ''downloads''))) =
      Some (js ''Deep Dive.mp3'')"
proof -
  let ?t = "js ''Episode 42: Deep Dive''"
  let ?e = "example_env ?t [example_result] world_tool_fails (world_tool_ok [js ''Deep Dive.mp3''])"
  let ?c = "\<lparr>cand_feedUrl = Some (js ''https://feed.example/x.xml''),
           cand_collectionName = Some (js ''Example Podcast'')\<rparr>"
  have h2: "oembed ?e (js ''https://open.spotify.com/episode/abc'') = Json \<lparr>oembed_title = Some ?t\<rparr>"
    by (simp add: example_env_def)
  have h3: "oembed_title \<lparr>oembed_title = Some ?t\<rparr> = Some ?t" by simp
  have h4: "?t \<noteq> []" by (simp add: js_def)
  have h5: "searchItunesRss (itunes ?e ?t (js ''podcastEpisode'')) = Some ?c"
    by (rule example_search)
  have h6: "cand_feedUrl ?c = Some (js ''https://feed.example/x.xml'')" by simp
  have a0: "attempt ?e 0 = world_tool_fails" and a1: "attempt ?e 1 = world_tool_ok [js ''Deep Dive.mp3'']"
    by (simp_all add: example_env_def)
  have f: "\<not> success (downloadFromRss world_tool_fails (js ''https://feed.example/x.xml'')
          (js ''downloads'') (Some (buildExactFilter ?t)))"
    by (simp add: world_tool_fails_result success_failure)
  have h7: "\<not> success (downloadFromRss (attempt ?e 0) (js ''https://feed.example/x.xml'')
          (js ''downloads'') (Some (buildExactFilter ?t)))"
    unfolding a0 by (rule f)
  note w = episode_run_one_fuzzy_retry [OF episode_url h2 h3 h4 h5 h6 h7 deep_dive_fuzzy,
      unfolded a1 world_tool_ok_result deep_dive_exact]
  from w have s: "snd (downloadSpotifyEpisode ?e (js ''https://open.spotify.com/episode/abc'')
      (js ''downloads'')) = [Some ?t, Some (js ''.*Episode.*Deep.*Dive.*'')]"
    by (rule conjunct1)
  from w have "success (fst (downloadSpotifyEpisode ?e (js ''https://open.spotify.com/episode/abc'')
      (js ''downloads''))) = True
    \<and> fileName (fst (downloadSpotifyEpisode ?e (js ''https://open.spotify.com/episode/abc'')
      (js ''downloads''))) = Some (js ''Deep Dive.mp3'')"
    by (simp add: finish_def)
  with episode_url f deep_dive_fuzzy s show ?thesis by simp
qed

text \<open>
  Claim C7, as the code has it. When the title is resolved and the search yields no
  candidate (an empty answer or a failed request), the run ends with the failure
  "Could not find RSS feed in iTunes" and has made no call of the download.
\<close>

theorem no_feed_no_download:
  assumes "oembed e url = Json d" and "oembed_title d = Some t" and "t \<noteq> []"
    and "candidates (itunes e t
           (if js_includes url (js ''/episode/'') then js ''podcastEpisode'' else js ''podcast''))
         = []"
  shows "downloadSpotifyEpisode e url dir =
      (failure (js ''Could not find RSS feed in iTunes''), [])
    \<and> \<not> success (fst (downloadSpotifyEpisode e url dir))
    \<and> error (fst (downloadSpotifyEpisode e url dir)) =
        Some (js ''Could not find RSS feed in iTunes'')"
  using downloadSpotifyEpisode_no_feed [OF assms, of dir] by (simp add: failure_def)

text \<open>
  An episode whose search answers with an empty result list.
\<close>

theorem no_feed_no_download_witness:
  "candidates (itunes (example_env (js ''Episode 42: Deep Dive'') [] world_tool_fails world_tool_fails)
      (js ''Episode 42: Deep Dive'') (js ''podcastEpisode'')) = []
   \<and> downloadSpotifyEpisode
        (example_env (js ''Episode 42: Deep Dive'') [] world_tool_fails world_tool_fails)
        (js ''https://open.spotify.com/episode/abc'') (js ''downloads'') =
      (failure (js ''Could not find RSS feed in iTunes''), [])"
proof -
  let ?t = "js ''Episode 42: Deep Dive''"
  let ?e = "example_env ?t [] world_tool_fails world_tool_fails"
  have h1: "oembed ?e (js ''https://open.spotify.com/episode/abc'') = Json \<lparr>oembed_title = Some ?t\<rparr>"
    by (simp add: example_env_def)
  have h2: "oembed_title \<lparr>oembed_title = Some ?t\<rparr> = Some ?t" by simp
  have h3: "?t \<noteq> []" by (simp add: js_def)
  have c: "candidates (itunes ?e ?t (js ''podcastEpisode'')) = []"
    by (simp add: example_env_def candidates_def searchItunesRss_def)
  then have h4: "candidates (itunes ?e ?t
      (if js_includes (js ''https://open.spotify.com/episode/abc'') (js ''/episode/'')
       then js ''podcastEpisode'' else js ''podcast'')) = []"
    by (simp only: episode_url if_True)
  from c no_feed_no_download [OF h1 h2 h3 h4, of "js ''downloads''"] show ?thesis by blast
qed

text \<open>
  Claim C7 as stated gives the message as "Could not find RSS feed". The message of the
  run is "Could not find RSS feed in iTunes".
\<close>

theorem feed_not_found_message_counterexample:
  "error (fst (downloadSpotifyEpisode
      (example_env (js ''Episode 42: Deep Dive'') [] world_tool_fails world_tool_fails)
      (js ''https://open.spotify.com/episode/abc'') (js ''downloads''))) =
     Some (js ''Could not find RSS feed in iTunes'')
   \<and> error (fst (downloadSpotifyEpisode
      (example_env (js ''Episode 42: Deep Dive'') [] world_tool_fails world_tool_fails)
      (js ''https://open.spotify.com/episode/abc'') (js ''downloads''))) \<noteq>
     Some (js ''Could not find RSS feed'')"
proof -
  let ?t = "js ''Episode 42: Deep Dive''"
  let ?e = "example_env ?t [] world_tool_fails world_tool_fails"
  have h1: "oembed ?e (js ''https://open.spotify.com/episode/abc'') = Json \<lparr>oembed_title = Some ?t\<rparr>"
    by (simp add: example_env_def)
  have h2: "oembed_title \<lparr>oembed_title = Some ?t\<rparr> = Some ?t" by simp
  have h3: "?t \<noteq> []" by (simp add: js_def)
  have h4: "candidates (itunes ?e ?t
      (if js_includes (js ''https://open.spotify.com/episode/abc'') (js ''/episode/'')
       then js ''podcastEpisode'' else js ''podcast'')) = []"
    by (simp add: example_env_def candidates_def searchItunesRss_def)
  have r: "downloadSpotifyEpisode ?e (js ''https://open.spotify.com/episode/abc'') (js ''downloads'') =
      (failure (js ''Could not find RSS feed in iTunes''), [])"
    by (rule downloadSpotifyEpisode_no_feed [OF h1 h2 h3 h4])
  have "js ''Could not find RSS feed in iTunes'' \<noteq> js ''Could not find RSS feed''"
    by (simp add: js_def)
  then show ?thesis by (simp add: r failure_def)
qed

end
